theory Spec2Isabelle
  imports Complex_Main "HOL-Library.AList" "HOL-Library.Sublist"
begin

section \<open>Conventions of the model\<close>

text \<open>
  A word is a \<^typ>\<open>string\<close>, one \<^typ>\<open>char\<close> per letter: the puzzle's words are
  upper-case ASCII letters, so a UTF-16 code unit, a code point and a letter coincide, and
  \<open>new RegExp(letter, "g")\<close> matches exactly the occurrences of the letter.

  A JavaScript \<open>Set\<close> is the list of its members in insertion order, a \<open>Map\<close> and a
  plain object used as a table are association lists in insertion order
  (\<^const>\<open>AList.update\<close> overwrites in place or appends, as \<open>Map.set\<close> does).
  Counts are natural numbers; the only subtractions of the source are guarded so that
  they never go below zero.
\<close>

definition setAdd :: "'a list \<Rightarrow> 'a \<Rightarrow> 'a list" where
  "setAdd xs x = (if x \<in> set xs then xs else xs @ [x])"

text \<open>The JavaScript idiom \<open>m.get(k) || d\<close> on a table of numbers: \<open>d\<close> replaces
  both a missing entry and the number 0.\<close>

definition getOr :: "('k \<rightharpoonup> nat) \<Rightarrow> 'k \<Rightarrow> nat \<Rightarrow> nat" where
  "getOr m k d = (case m k of None \<Rightarrow> d | Some n \<Rightarrow> if n = 0 then d else n)"

text \<open>Writing an array cell by index: JavaScript extends the array, leaving holes.\<close>

definition jsSet :: "'a \<Rightarrow> 'a list \<Rightarrow> nat \<Rightarrow> 'a \<Rightarrow> 'a list" where
  "jsSet hole xs i v =
     (if i < length xs then xs[i := v] else xs @ replicate (i - length xs) hole @ [v])"

datatype error =
    TypeError
  | ImpossibleConstraints char nat nat
  | FeedbackLongerThanGuess

section \<open>Outcome simulator (\<open>computePattern\<close>)\<close>

text \<open>
  \<open>computePattern\<close> fills an array with one of three emoji and joins it; the three
  emoji are distinct code points, so the joined string and the list of tiles determine
  each other, and the pattern is kept as the list of tiles.
\<close>

datatype tile = Grey | Green | Yellow

definition countSecret :: "string \<Rightarrow> (char \<rightharpoonup> nat)" where
  "countSecret secret = foldl (\<lambda>m c. m(c \<mapsto> getOr m c 0 + 1)) Map.empty secret"

text \<open>Body of the first loop. \<open>secret[i]\<close> is \<open>undefined\<close> beyond the end of the
  secret, which is never equal to a letter of the guess.\<close>

definition markGreen ::
  "string \<Rightarrow> string \<Rightarrow> tile list \<times> (char \<rightharpoonup> nat) \<Rightarrow> nat \<Rightarrow> tile list \<times> (char \<rightharpoonup> nat)" where
  "markGreen guess secret st i =
     (case st of (result, secretLetters) \<Rightarrow>
        if i < length secret \<and> guess ! i = secret ! i
        then (result[i := Green],
              secretLetters(guess ! i \<mapsto> getOr secretLetters (guess ! i) 1 - 1))
        else (result, secretLetters))"

text \<open>Body of the second loop.\<close>

definition markYellow ::
  "string \<Rightarrow> tile list \<times> (char \<rightharpoonup> nat) \<Rightarrow> nat \<Rightarrow> tile list \<times> (char \<rightharpoonup> nat)" where
  "markYellow guess st i =
     (case st of (result, secretLetters) \<Rightarrow>
        let count = getOr secretLetters (guess ! i) 0 in
        if result ! i = Grey \<and> count > 0
        then (result[i := Yellow], secretLetters(guess ! i \<mapsto> count - 1))
        else (result, secretLetters))"

definition computePattern :: "string \<Rightarrow> string \<Rightarrow> tile list" where
  "computePattern guess secret =
     (let n = length guess;
          st0 = (replicate n Grey, countSecret secret);
          st1 = foldl (markGreen guess secret) st0 [0..<n];
          st2 = foldl (markYellow guess) st1 [0..<n]
      in fst st2)"

section \<open>Feedback interpreter (\<open>analyzeResults\<close>)\<close>

text \<open>
  Of a \<open>GuessResult\<close> \<open>{slot, guess, result}\<close> only the field \<open>result\<close> is ever
  read, so a feedback record is the list of its result kinds, one per slot.
\<close>

datatype ResultKind = Absent | Present | Correct

record GuessAnalysis =
  correct :: "char list"
  present :: "char list"
  absent :: "char list"
  positions :: "(nat \<times> char) list"
  letterCounts :: "(char \<times> nat \<times> nat option) list"
  constraints :: "string list"

definition emptyAnalysis :: GuessAnalysis where
  "emptyAnalysis =
     \<lparr>correct = [], present = [], absent = [], positions = [], letterCounts = [],
      constraints = []\<rparr>"

text \<open>\<open>knownCount\<close>: the results at a slot holding the letter that are correct or
  present.\<close>

definition knownCount :: "string \<Rightarrow> ResultKind list \<Rightarrow> char \<Rightarrow> nat" where
  "knownCount guess results ch =
     length (filter (\<lambda>(i, r). i < length guess \<and> guess ! i = ch \<and> (r = Correct \<or> r = Present))
               (enumerate 0 results))"

text \<open>
  Body of the first pass (\<open>results.forEach\<close>). The state is the analysis together with
  the local table \<open>bannedPos\<close> (here \<open>bp\<close>), which the source fills with the slots of
  the yellow letters and never stores in the analysis.
\<close>

definition firstPass ::
  "string \<Rightarrow> ResultKind list \<Rightarrow> GuessAnalysis \<times> (char \<times> nat list) list \<Rightarrow> nat \<times> ResultKind
     \<Rightarrow> GuessAnalysis \<times> (char \<times> nat list) list" where
  "firstPass guess results st ir =
     (case st of (analysis, bp) \<Rightarrow>
      case ir of (index, resultType) \<Rightarrow>
        let ch = guess ! index in
        case resultType of
          Correct \<Rightarrow>
            (analysis\<lparr>correct := setAdd (correct analysis) ch,
                       positions := AList.update index ch (positions analysis)\<rparr>, bp)
        | Present \<Rightarrow>
            (analysis\<lparr>present := setAdd (present analysis) ch,
                       letterCounts :=
                         (case map_of (letterCounts analysis) ch of
                            None \<Rightarrow> AList.update ch (1, None) (letterCounts analysis)
                          | Some _ \<Rightarrow> letterCounts analysis)\<rparr>,
             AList.update ch
               (setAdd (case map_of bp ch of None \<Rightarrow> [] | Some s \<Rightarrow> s) index) bp)
        | Absent \<Rightarrow>
            if ch \<notin> set (correct analysis) \<and> ch \<notin> set (present analysis)
            then (analysis\<lparr>absent := setAdd (absent analysis) ch\<rparr>, bp)
            else (analysis\<lparr>letterCounts :=
                    AList.update ch (knownCount guess results ch,
                                     Some (knownCount guess results ch))
                      (letterCounts analysis)\<rparr>, bp))"

text \<open>Body of the second pass: the slots of each letter, by result kind
  (\<open>charResults[char] = {correct, present, absent}\<close>).\<close>

definition secondPass ::
  "string \<Rightarrow> ResultKind list \<Rightarrow> (char \<times> nat list \<times> nat list \<times> nat list) list \<Rightarrow> nat
     \<Rightarrow> (char \<times> nat list \<times> nat list \<times> nat list) list" where
  "secondPass guess results charResults i =
     (let ch = guess ! i;
          info = (case map_of charResults ch of None \<Rightarrow> ([], [], []) | Some x \<Rightarrow> x)
      in case info of (co, pr, ab) \<Rightarrow>
           (case results ! i of
              Correct \<Rightarrow> AList.update ch (co @ [i], pr, ab) charResults
            | Present \<Rightarrow> AList.update ch (co, pr @ [i], ab) charResults
            | Absent \<Rightarrow> AList.update ch (co, pr, ab @ [i]) charResults))"

text \<open>Body of the loop \<open>for (let char in charResults)\<close>.\<close>

definition buildCounts ::
  "(char \<times> nat \<times> nat option) list \<Rightarrow> char \<times> nat list \<times> nat list \<times> nat list
     \<Rightarrow> (char \<times> nat \<times> nat option) list" where
  "buildCounts lc entry =
     (case entry of (ch, co, pr, ab) \<Rightarrow>
        let lc1 = (if \<not> (co = [] \<and> pr = [])
                   then AList.update ch (length co + length pr, None) lc else lc)
        in if ab \<noteq> [] \<and> co = [] \<and> pr = [] then AList.update ch (0, Some 0) lc1 else lc1)"

text \<open>
  With fewer results than letters the second pass reads \<open>results[i].result\<close> of
  \<open>undefined\<close> and throws a \<open>TypeError\<close>. With more results than letters the first
  pass would file the extra results under the letter \<open>undefined\<close>; the server sends one
  result per letter, and the model stops at that boundary
  (\<^const>\<open>FeedbackLongerThanGuess\<close> is not an error of the source).
\<close>

definition analyzeResults :: "string \<Rightarrow> ResultKind list \<Rightarrow> error + GuessAnalysis" where
  "analyzeResults guess results =
     (if length guess < length results then Inl FeedbackLongerThanGuess
      else if length results < length guess then Inl TypeError
      else
        let st = foldl (firstPass guess results) (emptyAnalysis, []) (enumerate 0 results);
            charResults = foldl (secondPass guess results) [] [0..<length guess];
            analysis = fst st
        in Inr (analysis\<lparr>letterCounts := foldl buildCounts (letterCounts analysis) charResults\<rparr>))"

section \<open>Constraint model (\<open>normalizeConstraints\<close>)\<close>

text \<open>A cell of the array \<open>greens\<close>: \<open>null\<close> as filled by the constructor of the
  array, a letter, or the hole \<open>undefined\<close> left when a position beyond the word length
  is written.\<close>

datatype green = Null | Undefined | Letter char

record NormalizedConstraints =
  greens :: "green list"
  minCounts :: "(char \<times> nat) list"
  maxCounts :: "(char \<times> nat) list"
  bannedPos :: "(char \<times> nat list) list"
  forbidden :: "char list"
  testedLetters :: "char list"

definition greenAt :: "green list \<Rightarrow> nat \<Rightarrow> green" where
  "greenAt gs i = (if i < length gs then gs ! i else Undefined)"

definition emptyConstraints :: "nat \<Rightarrow> NormalizedConstraints" where
  "emptyConstraints wordLength =
     \<lparr>greens = replicate wordLength Null, minCounts = [], maxCounts = [], bannedPos = [],
      forbidden = [], testedLetters = []\<rparr>"

text \<open>\<open>analysis.positions.forEach\<close>: the green letters.\<close>

definition addGreen :: "NormalizedConstraints \<Rightarrow> nat \<times> char \<Rightarrow> NormalizedConstraints" where
  "addGreen cs entry =
     (case entry of (pos, ch) \<Rightarrow>
        cs\<lparr>greens := jsSet Undefined (greens cs) pos (Letter ch),
           minCounts := AList.update ch (getOr (map_of (minCounts cs)) ch 0 + 1) (minCounts cs),
           testedLetters := setAdd (testedLetters cs) ch\<rparr>)"

text \<open>\<open>analysis.present.forEach\<close>: the yellow letters. Every position below the word
  length whose green cell is not the letter is banned for it.\<close>

definition addPresent ::
  "nat \<Rightarrow> GuessAnalysis \<Rightarrow> NormalizedConstraints \<Rightarrow> char \<Rightarrow> NormalizedConstraints" where
  "addPresent wordLength analysis cs ch =
     cs\<lparr>minCounts :=
          AList.update ch
            (max (getOr (map_of (minCounts cs)) ch 0 + 1)
                 (length (filter (\<lambda>(p, c). c = ch) (positions analysis))))
            (minCounts cs),
        bannedPos :=
          AList.update ch
            (foldl (\<lambda>s i. if greenAt (greens cs) i \<noteq> Letter ch \<and>
                              map_of (positions analysis) i \<noteq> Some ch
                           then setAdd s i else s)
               (case map_of (bannedPos cs) ch of None \<Rightarrow> [] | Some s \<Rightarrow> s)
               [0..<wordLength])
            (bannedPos cs),
        testedLetters := setAdd (testedLetters cs) ch\<rparr>"

text \<open>\<open>analysis.absent.forEach\<close>: \<open>!minCounts[char]\<close> holds for a missing entry and
  for 0.\<close>

definition addAbsent :: "NormalizedConstraints \<Rightarrow> char \<Rightarrow> NormalizedConstraints" where
  "addAbsent cs ch =
     (if getOr (map_of (minCounts cs)) ch 0 = 0
      then cs\<lparr>forbidden := setAdd (forbidden cs) ch,
              testedLetters := setAdd (testedLetters cs) ch\<rparr>
      else cs\<lparr>maxCounts := AList.update ch (getOr (map_of (minCounts cs)) ch 0) (maxCounts cs),
              testedLetters := setAdd (testedLetters cs) ch\<rparr>)"

text \<open>The validation loop over \<open>Object.entries(maxCounts)\<close>: the first letter whose
  minimum (0 when it has none) exceeds its maximum throws. Every entry of \<open>maxCounts\<close>
  holds a number, so the test \<open>max !== undefined\<close> is always passed.\<close>

definition validateCounts :: "(char \<times> nat) list \<Rightarrow> (char \<times> nat) list \<Rightarrow> error + unit" where
  "validateCounts mins maxs =
     (case find (\<lambda>(ch, mx). getOr (map_of mins) ch 0 > mx) maxs of
        None \<Rightarrow> Inr ()
      | Some (ch, mx) \<Rightarrow> Inl (ImpossibleConstraints ch (getOr (map_of mins) ch 0) mx))"

definition buildConstraints :: "nat \<Rightarrow> GuessAnalysis \<Rightarrow> NormalizedConstraints" where
  "buildConstraints wordLength analysis =
     (let cs1 = foldl addGreen (emptyConstraints wordLength) (positions analysis);
          cs2 = foldl (addPresent wordLength analysis) cs1 (present analysis)
      in foldl addAbsent cs2 (absent analysis))"

definition normalizeConstraints :: "nat \<Rightarrow> GuessAnalysis \<Rightarrow> error + NormalizedConstraints" where
  "normalizeConstraints wordLength analysis =
     (let cs = buildConstraints wordLength analysis
      in case validateCounts (minCounts cs) (maxCounts cs) of
           Inl e \<Rightarrow> Inl e
         | Inr _ \<Rightarrow> Inr cs)"

section \<open>Candidate filter (the callback of \<open>wordList.filter\<close> in \<open>filterWords\<close>)\<close>

text \<open>
  \<open>word[pos]\<close> beyond the end of the word is \<open>undefined\<close> and equals no letter. A cell
  of \<open>greens\<close> beyond the array is \<open>undefined\<close>, which is not \<open>null\<close> and not the
  letter of the word, so a word longer than the array is rejected.
\<close>

definition matchesConstraints :: "NormalizedConstraints \<Rightarrow> string \<Rightarrow> bool" where
  "matchesConstraints cs word =
     (list_all (\<lambda>ch. ch \<notin> set word) (forbidden cs) \<and>
      list_all (\<lambda>i. greenAt (greens cs) i = Null \<or> greenAt (greens cs) i = Letter (word ! i))
        [0..<length word] \<and>
      list_all (\<lambda>(ch, minCount). minCount \<le> count_list word ch) (minCounts cs) \<and>
      list_all (\<lambda>(ch, maxCount). count_list word ch \<le> maxCount) (maxCounts cs) \<and>
      list_all (\<lambda>(ch, ps). list_all (\<lambda>pos. pos \<ge> length word \<or> word ! pos \<noteq> ch) ps)
        (bannedPos cs))"

text \<open>The feedback the server gives for a guess against a secret, tile by tile, as the
  simulator computes it.\<close>

definition kindOf :: "tile \<Rightarrow> ResultKind" where
  "kindOf t = (case t of Grey \<Rightarrow> Absent | Yellow \<Rightarrow> Present | Green \<Rightarrow> Correct)"

definition feedbackFor :: "string \<Rightarrow> string \<Rightarrow> ResultKind list" where
  "feedbackFor guess secret = map kindOf (computePattern guess secret)"

section \<open>The bot: configuration and precomputed tables\<close>

text \<open>
  The fields of \<open>config\<close> that the engine reads. Scores are JavaScript numbers (IEEE
  doubles); they are modelled as real numbers. Apart from the entropy term every score of
  the source is a multiple of one half of small size and is computed exactly, so there the
  real number is the number of the source. The entropy term goes through \<open>Math.log2\<close>
  and is rounded in the source; the model has its exact value, and nothing below rests on
  which of two nearly equal entropy scores is the larger.
\<close>

record BotConfig =
  game_wordLength :: nat
  strategy_startingWords :: "string list"
  commonStart :: "char list"
  commonEnd :: "char list"
  vowels :: "char list"
  startBonus :: real
  vowelBonus :: real
  commonEndBonus :: real

text \<open>
  The dictionary service is an external collaborator with a state of its own (a cache, the
  network). It enters the model as a parameter: a function from its state and a list of
  words to the words it keeps and its next state. The function is total, as
  \<open>validateWords\<close> is: the service catches the failures of its requests and counts the
  words concerned as valid.
\<close>

type_synonym 'd validator = "'d \<Rightarrow> string list \<Rightarrow> string list \<times> 'd"

record 'd Bot =
  config :: BotConfig
  wordLength :: nat
  startingWords :: "string list"
  letterFrequencies :: "(char \<times> nat) list"
  positionFrequencies :: "(nat \<times> (char \<times> nat) list) list"
  dictionaryService :: 'd

definition bump :: "(char \<times> nat) list \<Rightarrow> char \<Rightarrow> (char \<times> nat) list" where
  "bump freq ch = AList.update ch (getOr (map_of freq) ch 0 + 1) freq"

definition calculateLetterFrequencies :: "string list \<Rightarrow> (char \<times> nat) list" where
  "calculateLetterFrequencies words =
     (let freq = foldl bump [] (concat words)
      in foldl (\<lambda>f (index, letter).
                  if getOr (map_of f) letter 0 \<noteq> 0
                  then AList.update letter (getOr (map_of f) letter 0 + (10 - index)) f
                  else f)
           freq (enumerate 0 ''EARIOTNSLC''))"

text \<open>The table of position \<open>i\<close> counts the letter at \<open>i\<close> of every starting
  word. The configured starting words all have \<open>wordLength\<close> letters; a shorter word
  (whose \<open>word[i]\<close> the source would count under the key \<open>undefined\<close>) is left out of
  the table of position \<open>i\<close>.\<close>

definition initPositionFrequencies :: "nat \<Rightarrow> string list \<Rightarrow> (nat \<times> (char \<times> nat) list) list" where
  "initPositionFrequencies n words =
     map (\<lambda>i. (i, foldl bump []
                     (map (\<lambda>word. word ! i) (filter (\<lambda>word. i < length word) words))))
       [0..<n]"

definition newBot :: "BotConfig \<Rightarrow> 'd \<Rightarrow> 'd Bot" where
  "newBot cfg svc =
     \<lparr>config = cfg,
      wordLength = game_wordLength cfg,
      startingWords = strategy_startingWords cfg,
      letterFrequencies = calculateLetterFrequencies (strategy_startingWords cfg),
      positionFrequencies =
        initPositionFrequencies (game_wordLength cfg) (strategy_startingWords cfg),
      dictionaryService = svc\<rparr>"

section \<open>Entropy and worst-case bucket\<close>

definition partitionByPattern :: "string \<Rightarrow> string list \<Rightarrow> (tile list \<times> string list) list" where
  "partitionByPattern guess secrets =
     foldl (\<lambda>patterns secret.
              let pattern = computePattern guess secret
              in AList.update pattern
                   ((case map_of patterns pattern of None \<Rightarrow> [] | Some bucket \<Rightarrow> bucket) @ [secret])
                   patterns)
       [] secrets"

definition entropyOf :: "string \<Rightarrow> string list \<Rightarrow> real" where
  "entropyOf guess secrets =
     foldl (\<lambda>entropy (pattern, bucket).
              let p = real (length bucket) / real (length secrets)
              in entropy - p * log 2 p)
       0 (partitionByPattern guess secrets)"

definition worstCaseBucket :: "string \<Rightarrow> string list \<Rightarrow> nat" where
  "worstCaseBucket guess secrets =
     foldl (\<lambda>maxSize (pattern, bucket). max maxSize (length bucket))
       0 (partitionByPattern guess secrets)"

section \<open>Candidate scorer (\<open>scoreWord\<close>)\<close>

definition positionScore :: "'d Bot \<Rightarrow> nat \<Rightarrow> char \<Rightarrow> nat" where
  "positionScore self i ch =
     (case map_of (positionFrequencies self) i of None \<Rightarrow> 0 | Some freq \<Rightarrow> getOr (map_of freq) ch 0)"

text \<open>What one letter of the word adds to the score (body of the loop over the
  positions).\<close>

definition letterScore :: "'d Bot \<Rightarrow> string \<Rightarrow> nat \<Rightarrow> real" where
  "letterScore self word i =
     (let ch = word ! i; cfg = config self
      in real (positionScore self i ch * 2)
         + real (getOr (map_of (letterFrequencies self)) ch 0)
         + (if i = 0 \<and> ch \<in> set (commonStart cfg) then startBonus cfg else 0)
         + (if i = length word - 1 \<and> ch \<in> set (commonEnd cfg) then commonEndBonus cfg else 0)
         + (if ch \<in> set (vowels cfg)
            then vowelBonus cfg * (if i = 1 \<or> i = 2 then 3 / 2 else 1) else 0))"

definition baseScore :: "'d Bot \<Rightarrow> string \<Rightarrow> real" where
  "baseScore self word = foldl (\<lambda>score i. score + letterScore self word i) 0 [0..<length word]"

text \<open>The part of the score that reads the constraints: untested letters, duplicate
  letters, letters above their maximum.\<close>

definition duplicateScore :: "NormalizedConstraints \<Rightarrow> char \<times> nat \<Rightarrow> real" where
  "duplicateScore cs entry =
     (case entry of (ch, count) \<Rightarrow>
        let minRequired = getOr (map_of (minCounts cs)) ch 0
        in (if count > 1
            then (if minRequired \<ge> count then 2
                  else - (5 * (real count - real (if minRequired = 0 then 1 else minRequired))))
            else 0)
           + (case map_of (maxCounts cs) ch of
                None \<Rightarrow> 0
              | Some maxAllowed \<Rightarrow>
                  if count > maxAllowed then - (10 * (real count - real maxAllowed)) else 0))"

definition constraintScore :: "NormalizedConstraints \<Rightarrow> string \<Rightarrow> real" where
  "constraintScore cs word =
     foldl (\<lambda>score ch. if ch \<notin> set (testedLetters cs) then score + 8 else score) 0 (remdups word)
     + foldl (\<lambda>score entry. score + duplicateScore cs entry) 0 (foldl bump [] word)"

definition candidateScore :: "string \<Rightarrow> string list option \<Rightarrow> real" where
  "candidateScore word candidates =
     (case candidates of
        None \<Rightarrow> 0
      | Some cands \<Rightarrow>
          if cands = [] then 0
          else if length cands \<le> 20 then (if word \<in> set cands then 15 else 0)
          else entropyOf word cands * 10)"

definition scoreWord ::
  "'d Bot \<Rightarrow> string \<Rightarrow> GuessAnalysis option \<Rightarrow> string list option \<Rightarrow> error + real" where
  "scoreWord self word analysis candidates =
     (case analysis of
        None \<Rightarrow> Inr (baseScore self word + candidateScore word candidates)
      | Some a \<Rightarrow>
          (case normalizeConstraints (wordLength self) a of
             Inl e \<Rightarrow> Inl e
           | Inr cs \<Rightarrow>
               Inr (baseScore self word + constraintScore cs word + candidateScore word candidates)))"

text \<open>
  \<open>Array.prototype.sort\<close> is stable. Sorting by a comparator \<open>score(b) - score(a)\<close> is
  the stable sort by descending score; \<^const>\<open>sort_key\<close> is a stable insertion sort.
  A list of fewer than two elements is returned without a call of the comparator; on a
  longer list every element is scored, and a score that throws ends the sort.
\<close>

definition sortByScoreDesc :: "('a \<Rightarrow> error + real) \<Rightarrow> 'a list \<Rightarrow> error + 'a list" where
  "sortByScoreDesc score xs =
     (if length xs < 2 then Inr xs
      else case find (\<lambda>x. isl (score x)) xs of
             Some x \<Rightarrow> Inl (projl (score x))
           | None \<Rightarrow> Inr (sort_key (\<lambda>x. - projr (score x)) xs))"

text \<open>\<open>getBestStartingWord\<close> sorts the array of starting words in place and returns
  its first element (\<open>undefined\<close> when there is none). The bot's array is the array of
  the configuration itself, so both see the new order. Scoring without an analysis never
  throws.\<close>

definition plainScore :: "'d Bot \<Rightarrow> string \<Rightarrow> real" where
  "plainScore self word = (case scoreWord self word None None of Inr s \<Rightarrow> s | Inl e \<Rightarrow> 0)"

definition getBestStartingWord :: "'d Bot \<Rightarrow> string option \<times> 'd Bot" where
  "getBestStartingWord self =
     (let sortedWords = sort_key (\<lambda>w. - plainScore self w) (startingWords self)
      in (case sortedWords of [] \<Rightarrow> None | w # _ \<Rightarrow> Some w,
          self\<lparr>startingWords := sortedWords,
               config := (config self)\<lparr>strategy_startingWords := sortedWords\<rparr>\<rparr>))"

section \<open>Candidate synthesizers\<close>

subsection \<open>Beam search (\<open>enumerateCandidates\<close>)\<close>

definition scorePartial :: "'d Bot \<Rightarrow> string \<Rightarrow> nat" where
  "scorePartial self partial =
     foldl (\<lambda>score i. score + positionScore self i (partial ! i) * 2
                         + getOr (map_of (letterFrequencies self)) (partial ! i) 0)
       0 [0..<length partial]"

definition isPossiblePrefix :: "'d Bot \<Rightarrow> string \<Rightarrow> bool" where
  "isPossiblePrefix self partial =
     (let vs = vowels (config self);
          lastThree = drop (length partial - 3) partial
      in (length partial < 3 \<or> list_ex (\<lambda>c. c \<in> set vs) partial) \<and>
         \<not> (length lastThree = 3 \<and> list_all (\<lambda>c. c \<notin> set vs) lastThree \<and>
            length partial < wordLength self))"

definition extendBeam :: "'d Bot \<Rightarrow> nat \<Rightarrow> string list \<Rightarrow> string list" where
  "extendBeam self pos beam =
     (let posFreq = (case map_of (positionFrequencies self) pos of None \<Rightarrow> [] | Some f \<Rightarrow> f);
          nextBeam = concat (map (\<lambda>partial.
                        filter (isPossiblePrefix self) (map (\<lambda>(ch, freq). partial @ [ch]) posFreq))
                      beam)
      in take 100 (sort_key (\<lambda>p. - int (scorePartial self p)) nextBeam))"

definition enumerateCandidates :: "'d validator \<Rightarrow> 'd Bot \<Rightarrow> nat \<Rightarrow> string list \<times> 'd Bot" where
  "enumerateCandidates validateWords self limit =
     (let beam = foldl (\<lambda>beam pos. extendBeam self pos beam) [[]] [0..<wordLength self];
          (validCandidates, svc) = validateWords (dictionaryService self) beam
      in (take limit validCandidates, self\<lparr>dictionaryService := svc\<rparr>))"

subsection \<open>Pattern filling (\<open>generateWordCombinations\<close>)\<close>

definition isValidCandidate :: "GuessAnalysis \<Rightarrow> string \<Rightarrow> bool" where
  "isValidCandidate analysis word =
     (list_all (\<lambda>(pos, ch). pos < length word \<and> word ! pos = ch) (positions analysis) \<and>
      list_all (\<lambda>ch. ch \<in> set word) (present analysis) \<and>
      list_all (\<lambda>ch. ch \<notin> set word) (absent analysis) \<and>
      list_ex (\<lambda>c. c \<in> set ''AEIOU'') word)"

text \<open>The letter written at position \<open>i\<close> for a word pattern: the known letter, or the
  most frequent letter of the pool that is not absent, or nothing when the pool is
  empty.\<close>

definition fillLetter :: "'d Bot \<Rightarrow> GuessAnalysis \<Rightarrow> char option list \<Rightarrow> string \<Rightarrow> nat \<Rightarrow> string" where
  "fillLetter self analysis pattern wordPattern i =
     (case (if i < length pattern then pattern ! i else None) of
        Some ch \<Rightarrow> [ch]
      | None \<Rightarrow>
          let isVowelPosition = (i < length wordPattern \<and> wordPattern ! i = CHR ''V'');
              letterPool = filter (\<lambda>c. c \<notin> set (absent analysis))
                             (if isVowelPosition then ''AEIOU'' else ''BCDFGHJKLMNPQRSTVWXYZ'')
          in (case sort_key (\<lambda>c. - int (getOr (map_of (letterFrequencies self)) c 0)) letterPool of
                [] \<Rightarrow> []
              | letter # _ \<Rightarrow> [letter]))"

definition generateWordCombinations ::
  "'d validator \<Rightarrow> 'd Bot \<Rightarrow> char option list \<Rightarrow> GuessAnalysis \<Rightarrow> string list \<times> 'd Bot" where
  "generateWordCombinations validateWords self pattern analysis =
     (let words = map (\<lambda>wordPattern.
                    concat (map (fillLetter self analysis pattern wordPattern) [0..<wordLength self]))
                  [''CVCVC'', ''CCVCV'', ''CVCCV'', ''CVCCC'', ''CCVCC''];
          possibleWords = filter (\<lambda>word. length word = wordLength self \<and> isValidCandidate analysis word)
                            words;
          (valid, svc) = validateWords (dictionaryService self) possibleWords
      in (valid, self\<lparr>dictionaryService := svc\<rparr>))"

section \<open>\<open>filterWords\<close>\<close>

definition filterWords ::
  "'d validator \<Rightarrow> 'd Bot \<Rightarrow> GuessAnalysis \<Rightarrow> string list \<Rightarrow> error + string list \<times> 'd Bot" where
  "filterWords validateWords self analysis wordList =
     (case normalizeConstraints (wordLength self) analysis of
        Inl e \<Rightarrow> Inl e
      | Inr cs \<Rightarrow>
          let (filteredWords, svc) =
                validateWords (dictionaryService self) (filter (matchesConstraints cs) wordList);
              self1 = self\<lparr>dictionaryService := svc\<rparr>
          in if filteredWords = []
             then let pattern = foldl (\<lambda>p (pos, ch). jsSet None p pos (Some ch))
                                  (replicate (wordLength self) None) (positions analysis)
                  in Inr (generateWordCombinations validateWords self1 pattern analysis)
             else Inr (filteredWords, self1))"

section \<open>Guess selector (\<open>generateNextGuess\<close>)\<close>

text \<open>\<open>array.map(score)\<close> followed by a sort on the scores: every element is scored
  (a score that throws ends the call), then the pairs are sorted by descending score.\<close>

definition rankByScore :: "('a \<Rightarrow> error + real) \<Rightarrow> 'a list \<Rightarrow> error + 'a list" where
  "rankByScore score xs =
     (case find (\<lambda>x. isl (score x)) xs of
        Some x \<Rightarrow> Inl (projl (score x))
      | None \<Rightarrow> Inr (map fst (sort_key (\<lambda>(x, s). - s) (map (\<lambda>x. (x, projr (score x))) xs))))"

text \<open>The local predicate \<open>matchesAnalysis\<close> of the beam-search fallback.\<close>

definition matchesAnalysis :: "GuessAnalysis \<Rightarrow> string \<Rightarrow> bool" where
  "matchesAnalysis analysis word =
     (list_all (\<lambda>p. p \<in> set word) (present analysis) \<and>
      list_all (\<lambda>a. a \<in> set (present analysis) \<or> a \<in> set (correct analysis) \<or> a \<notin> set word)
        (absent analysis) \<and>
      list_all (\<lambda>(pos, ch). pos < length word \<and> word ! pos = ch) (positions analysis) \<and>
      list_all (\<lambda>(ch, mn, mx).
                  mn \<le> count_list word ch \<and>
                  (case mx of None \<Rightarrow> True | Some m \<Rightarrow> count_list word ch \<le> m))
        (letterCounts analysis))"

definition looseMatch :: "GuessAnalysis \<Rightarrow> string \<Rightarrow> bool" where
  "looseMatch analysis w =
     (list_all (\<lambda>p. p \<in> set w) (present analysis) \<and>
      list_all (\<lambda>a. a \<in> set (present analysis) \<or> a \<in> set (correct analysis) \<or> a \<notin> set w)
        (absent analysis))"

text \<open>The branch taken when no candidate remains: beam search, the loose fallback, and
  at last the best starting word.\<close>

definition beamFallback ::
  "'d validator \<Rightarrow> 'd Bot \<Rightarrow> GuessAnalysis \<Rightarrow> string list \<Rightarrow> error + string option \<times> 'd Bot" where
  "beamFallback validateWords self analysis previousGuesses =
     (let (beamCandidates, self1) = enumerateCandidates validateWords self 300;
          validBeam = filter (\<lambda>word. word \<notin> set previousGuesses \<and> matchesAnalysis analysis word)
                        beamCandidates
      in if validBeam \<noteq> []
         then (case rankByScore (\<lambda>w. scoreWord self1 w (Some analysis) (Some validBeam)) validBeam of
                 Inl e \<Rightarrow> Inl e
               | Inr scored \<Rightarrow> Inr (Some (hd scored), self1))
         else
           let looseFallback = filter (\<lambda>w. w \<notin> set previousGuesses \<and> looseMatch analysis w)
                                 beamCandidates
           in if looseFallback \<noteq> []
              then (case sortByScoreDesc (\<lambda>w. scoreWord self1 w (Some analysis) (Some looseFallback))
                           looseFallback of
                      Inl e \<Rightarrow> Inl e
                    | Inr sortedWords \<Rightarrow> Inr (Some (hd sortedWords), self1))
              else Inr (getBestStartingWord self1))"

text \<open>The minimax branch; \<open>None\<close> when no word is available and the source falls
  through to the entropy strategy.\<close>

definition minimaxBranch ::
  "'d Bot \<Rightarrow> GuessAnalysis \<Rightarrow> string list \<Rightarrow> string list \<Rightarrow> string list
     \<Rightarrow> (error + string) option" where
  "minimaxBranch self analysis previousGuesses remainingWords availableWords =
     (let minimaxScores =
            foldl (\<lambda>m word. if word \<notin> set previousGuesses
                             then AList.update word (worstCaseBucket word remainingWords) m else m)
              [] availableWords;
          sortedByMinimax = sort_key snd minimaxScores
      in case sortedByMinimax of
           [] \<Rightarrow> None
         | (bestWord, bestScore) # _ \<Rightarrow>
             let tiedForBest = map fst (filter (\<lambda>(word, score). score = bestScore) sortedByMinimax)
             in if length tiedForBest > 1
                then (case rankByScore
                             (\<lambda>word. case scoreWord self word (Some analysis) (Some remainingWords) of
                                        Inl e \<Rightarrow> Inl e
                                      | Inr frequencyScore \<Rightarrow>
                                          Inr (entropyOf word remainingWords * (7 / 10)
                                               + frequencyScore * (3 / 10)))
                             tiedForBest of
                        Inl e \<Rightarrow> Some (Inl e)
                      | Inr ranked \<Rightarrow> Some (Inr (hd ranked)))
                else Some (Inr bestWord))"

text \<open>The entropy branch.\<close>

definition entropyBranch ::
  "'d Bot \<Rightarrow> GuessAnalysis \<Rightarrow> string list \<Rightarrow> string list \<Rightarrow> string list
     \<Rightarrow> error + string option \<times> 'd Bot" where
  "entropyBranch self analysis previousGuesses remainingWords availableWords =
     (let candidateLimit = min (if length remainingWords > 50 then 200 else 100)
                               (length availableWords);
          topCandidates = take candidateLimit availableWords;
          entropyWeight = (if length remainingWords > 50 then 8 / 10 else 6 / 10)
      in case rankByScore
                (\<lambda>word. case scoreWord self word (Some analysis) (Some remainingWords) of
                           Inl e \<Rightarrow> Inl e
                         | Inr frequencyScore \<Rightarrow>
                             Inr (entropyOf word remainingWords * entropyWeight
                                  + frequencyScore * (1 - entropyWeight)))
                (filter (\<lambda>word. word \<notin> set previousGuesses) topCandidates) of
           Inl e \<Rightarrow> Inl e
         | Inr [] \<Rightarrow> Inr (getBestStartingWord self)
         | Inr (best # _) \<Rightarrow> Inr (Some best, self))"

text \<open>
  \<open>generateNextGuess(analysis, previousGuesses, candidates?)\<close>. The result is the word
  (\<open>undefined\<close> when even the list of starting words is empty) and the bot after the
  call.
\<close>

definition generateNextGuess ::
  "'d validator \<Rightarrow> 'd Bot \<Rightarrow> GuessAnalysis \<Rightarrow> string list \<Rightarrow> string list option
     \<Rightarrow> error + string option \<times> 'd Bot" where
  "generateNextGuess validateWords self analysis previousGuesses candidates =
     (case (case candidates of
              Some c \<Rightarrow> Inr (c, self)
            | None \<Rightarrow> filterWords validateWords self analysis (startingWords self)) of
        Inl e \<Rightarrow> Inl e
      | Inr (remainingWords, self1) \<Rightarrow>
          if remainingWords = []
          then beamFallback validateWords self1 analysis previousGuesses
          else
            let (allAvailableWords, self2) = enumerateCandidates validateWords self1 500;
                availableWords = filter (\<lambda>word. word \<notin> set previousGuesses) allAvailableWords;
                nonPreviousGuesses = filter (\<lambda>word. word \<notin> set previousGuesses) remainingWords
            in if length remainingWords \<le> 2
               then (if nonPreviousGuesses \<noteq> []
                     then Inr (Some (hd nonPreviousGuesses), self2)
                     else entropyBranch self2 analysis previousGuesses remainingWords availableWords)
               else if length remainingWords \<le> 20
               then (case minimaxBranch self2 analysis previousGuesses remainingWords availableWords of
                       Some (Inl e) \<Rightarrow> Inl e
                     | Some (Inr word) \<Rightarrow> Inr (Some word, self2)
                     | None \<Rightarrow>
                         entropyBranch self2 analysis previousGuesses remainingWords availableWords)
               else entropyBranch self2 analysis previousGuesses remainingWords availableWords)"

section \<open>The dictionary's cache (\<open>LRUCache\<close>)\<close>

text \<open>
  The \<open>Map\<close> of the cache in insertion order: key, value and expiry time. The clock
  (\<open>Date.now()\<close>) is a parameter of the operations. \<open>maxSize\<close> and \<open>ttl\<close> are the
  numbers passed to the constructor, taken as integers.
\<close>

record ('k, 'v) LRUCache =
  cache :: "('k \<times> 'v \<times> int) list"
  maxSize :: int
  ttl :: int




text \<open>\<open>get(key)\<close>: an expired entry is deleted, a live one moves to the end.\<close>

definition cacheGet :: "('k, 'v) LRUCache \<Rightarrow> int \<Rightarrow> 'k \<Rightarrow> 'v option \<times> ('k, 'v) LRUCache" where
  "cacheGet c now key =
     (case map_of (cache c) key of
        None \<Rightarrow> (None, c)
      | Some (val, expiry) \<Rightarrow>
          if now > expiry then (None, c\<lparr>cache := AList.delete key (cache c)\<rparr>)
          else (Some val, c\<lparr>cache := AList.update key (val, expiry) (AList.delete key (cache c))\<rparr>))"

text \<open>\<open>clear()\<close> and \<open>cleanExpired()\<close>.\<close>

definition cacheClear :: "('k, 'v) LRUCache \<Rightarrow> ('k, 'v) LRUCache" where
  "cacheClear c = c\<lparr>cache := []\<rparr>"

definition cleanExpired :: "('k, 'v) LRUCache \<Rightarrow> int \<Rightarrow> ('k, 'v) LRUCache" where
  "cleanExpired c now = c\<lparr>cache := filter (\<lambda>(key, val, expiry). now \<le> expiry) (cache c)\<rparr>"

section \<open>Concrete configuration and dictionaries\<close>

text \<open>The configuration of \<open>config.ts\<close>, as far as the engine reads it.\<close>

definition defaultConfig :: BotConfig where
  "defaultConfig =
     \<lparr>game_wordLength = 5,
      strategy_startingWords =
        [''STARE'', ''CRANE'', ''SLATE'', ''TRACE'', ''ADIEU'', ''AUDIO'', ''RAISE'', ''ARISE'',
         ''STARE'', ''CRANE'', ''SLATE'', ''TRACE'', ''ADIEU'', ''AUDIO'', ''RAISE'', ''ARISE'',
         ''STARE'', ''CRANE'', ''SLATE'', ''TRACE''],
      commonStart = ''SCTAR'',
      commonEnd = ''ERTYN'',
      vowels = ''AEIOU'',
      startBonus = 10,
      vowelBonus = 5,
      commonEndBonus = 3\<rparr>"

text \<open>Two dictionaries without a state: one that knows every word (what the service
  answers when the network fails), one that knows none.\<close>

definition acceptAll :: "unit validator" where
  "acceptAll svc ws = (ws, svc)"

definition rejectAll :: "unit validator" where
  "rejectAll svc ws = ([], svc)"

text \<open>The analyses and constraints of three concrete rounds: CRANE guessed against STARE,
  SPEED against ABIDE, ARISE against MOUNT.\<close>

definition craneAnalysis :: GuessAnalysis where
  "craneAnalysis =
     \<lparr>correct = ''AE'', present = ''R'', absent = ''CN'',
      positions = [(2, CHR ''A''), (4, CHR ''E'')],
      letterCounts = [(CHR ''R'', 1, None), (CHR ''C'', 0, Some 0), (CHR ''A'', 1, None),
                      (CHR ''N'', 0, Some 0), (CHR ''E'', 1, None)],
      constraints = []\<rparr>"

definition craneConstraints :: NormalizedConstraints where
  "craneConstraints =
     \<lparr>greens = [Null, Null, Letter CHR ''A'', Null, Letter CHR ''E''],
      minCounts = [(CHR ''A'', 1), (CHR ''E'', 1), (CHR ''R'', 1)],
      maxCounts = [],
      bannedPos = [(CHR ''R'', [0, 1, 2, 3, 4])],
      forbidden = ''CN'',
      testedLetters = ''AERCN''\<rparr>"

definition speedAnalysis :: GuessAnalysis where
  "speedAnalysis =
     \<lparr>correct = [], present = ''ED'', absent = ''SP'', positions = [],
      letterCounts = [(CHR ''E'', 1, None), (CHR ''D'', 1, None),
                      (CHR ''S'', 0, Some 0), (CHR ''P'', 0, Some 0)],
      constraints = []\<rparr>"

definition speedConstraints :: NormalizedConstraints where
  "speedConstraints =
     \<lparr>greens = [Null, Null, Null, Null, Null],
      minCounts = [(CHR ''E'', 1), (CHR ''D'', 1)],
      maxCounts = [],
      bannedPos = [(CHR ''E'', [0, 1, 2, 3, 4]), (CHR ''D'', [0, 1, 2, 3, 4])],
      forbidden = ''SP'',
      testedLetters = ''EDSP''\<rparr>"

definition ariseAnalysis :: GuessAnalysis where
  "ariseAnalysis =
     \<lparr>correct = [], present = [], absent = ''ARISE'', positions = [],
      letterCounts = [(CHR ''A'', 0, Some 0), (CHR ''R'', 0, Some 0), (CHR ''I'', 0, Some 0),
                      (CHR ''S'', 0, Some 0), (CHR ''E'', 0, Some 0)],
      constraints = []\<rparr>"

section \<open>Invariants of the simulator's two loops\<close>

text \<open>The slots below \<open>k\<close> where guess and secret agree on the letter \<open>c\<close>.\<close>

definition hits :: "string \<Rightarrow> string \<Rightarrow> nat \<Rightarrow> char \<Rightarrow> nat set" where
  "hits guess secret k c =
     {i. i < k \<and> i < length secret \<and> guess ! i = secret ! i \<and> guess ! i = c}"

text \<open>After \<open>k\<close> rounds of the first loop: the slots marked so far are the agreeing
  ones, and each counter holds what is left of the letter in the secret.\<close>

definition greenInv :: "string \<Rightarrow> string \<Rightarrow> nat \<Rightarrow> tile list \<times> (char \<rightharpoonup> nat) \<Rightarrow> bool" where
  "greenInv guess secret k st =
     (case st of (result, secretLetters) \<Rightarrow>
        length result = length guess \<and>
        (\<forall>i. i < length guess \<longrightarrow>
           result ! i =
             (if i < k \<and> i < length secret \<and> guess ! i = secret ! i then Green else Grey)) \<and>
        (\<forall>c. getOr secretLetters c 0 + card (hits guess secret k c) = count_list secret c))"

text \<open>The slots of the guess that hold \<open>c\<close> and are marked green or yellow.\<close>

definition marked :: "string \<Rightarrow> tile list \<Rightarrow> char \<Rightarrow> nat set" where
  "marked guess result c = {i. i < length guess \<and> guess ! i = c \<and> result ! i \<noteq> Grey}"

definition yellowInv :: "string \<Rightarrow> string \<Rightarrow> tile list \<times> (char \<rightharpoonup> nat) \<Rightarrow> bool" where
  "yellowInv guess secret st =
     (case st of (result, secretLetters) \<Rightarrow>
        length result = length guess \<and>
        (\<forall>c. card (marked guess result c) + getOr secretLetters c 0 \<le> count_list secret c))"

section \<open>Auxiliary predicates for the constraint model and the partition\<close>

text \<open>Every maximum of the constraints is at least the minimum of its letter.\<close>

definition boundsAgree :: "NormalizedConstraints \<Rightarrow> bool" where
  "boundsAgree cs =
     list_all (\<lambda>(ch, mx). getOr (map_of (minCounts cs)) ch 0 \<le> mx) (maxCounts cs)"

text \<open>The table \<open>ps\<close> is the partition of \<open>ys\<close> by the key \<open>f\<close>: one entry per key, whose
  bucket holds the elements with that key, in order.\<close>

definition bucketsOf :: "('a \<Rightarrow> 'k) \<Rightarrow> ('k \<times> 'a list) list \<Rightarrow> 'a list \<Rightarrow> bool" where
  "bucketsOf f ps ys =
     (distinct (map fst ps) \<and>
      map_of ps = (\<lambda>k. if k \<in> f ` set ys then Some (filter (\<lambda>y. f y = k) ys) else None))"


section \<open>The simulator never over-counts\<close>

lemma getOr_simps [simp]:
  "m k = None \<Longrightarrow> getOr m k d = d"
  "m k = Some n \<Longrightarrow> getOr m k d = (if n = 0 then d else n)"
  by (simp_all add: getOr_def)

lemma getOr_upd: "getOr (m(a \<mapsto> v)) k 0 = (if k = a then v else getOr m k 0)"
  by (simp add: getOr_def)

lemma countSecret_foldl:
  "getOr (foldl (\<lambda>m c. m(c \<mapsto> getOr m c 0 + 1)) m xs) c 0 = getOr m c 0 + count_list xs c"
  by (induction xs arbitrary: m) (simp_all add: getOr_upd)

lemma getOr_countSecret: "getOr (countSecret secret) c 0 = count_list secret c"
  using countSecret_foldl[of Map.empty secret c] by (simp add: countSecret_def)

lemma hits_finite [simp]: "finite (hits guess secret k c)"
  by (simp add: hits_def)

lemma hits_Suc:
  "hits guess secret (Suc k) c =
     (if k < length secret \<and> guess ! k = secret ! k \<and> guess ! k = c
      then insert k (hits guess secret k c) else hits guess secret k c)"
  by (auto simp: hits_def less_Suc_eq)

lemma hits_notin: "k \<notin> hits guess secret k c"
  by (simp add: hits_def)

lemma count_take_Suc:
  "count_list (take (Suc k) xs) c =
     count_list (take k xs) c + (if k < length xs \<and> xs ! k = c then 1 else 0)"
  by (cases "k < length xs") (simp_all add: take_Suc_conv_app_nth)

lemma count_take_le: "count_list (take k xs) c \<le> count_list xs c"
proof -
  have "count_list (take k xs @ drop k xs) c = count_list (take k xs) c + count_list (drop k xs) c"
    by (rule count_list_append)
  then show ?thesis by simp
qed

lemma hits_le_take: "card (hits guess secret k c) \<le> count_list (take k secret) c"
proof (induction k)
  case 0
  then show ?case by (simp add: hits_def)
next
  case (Suc k)
  then show ?case
    by (auto simp: hits_Suc count_take_Suc hits_notin)
qed

text \<open>An agreeing slot always finds its letter still available in the counter.\<close>

lemma hits_room:
  assumes "k < length secret" "secret ! k = c"
  shows "card (hits guess secret k c) < count_list secret c"
proof -
  have "card (hits guess secret k c) \<le> count_list (take k secret) c"
    by (rule hits_le_take)
  also have "\<dots> < count_list (take (Suc k) secret) c"
    using assms by (simp add: count_take_Suc)
  also have "\<dots> \<le> count_list secret c"
    by (rule count_take_le)
  finally show ?thesis .
qed

lemma greenInv_step:
  assumes "greenInv guess secret k st" "k < length guess"
  shows "greenInv guess secret (Suc k) (markGreen guess secret st k)"
proof -
  obtain result sl where st: "st = (result, sl)" by (cases st)
  from assms(1) have len: "length result = length guess"
    and res: "\<And>i. i < length guess \<Longrightarrow>
           result ! i = (if i < k \<and> i < length secret \<and> guess ! i = secret ! i then Green else Grey)"
    and cnt: "\<And>c. getOr sl c 0 + card (hits guess secret k c) = count_list secret c"
    by (auto simp: greenInv_def st)
  show ?thesis
  proof (cases "k < length secret \<and> guess ! k = secret ! k")
    case False
    then have "markGreen guess secret st k = st"
      by (auto simp: markGreen_def st)
    moreover have "hits guess secret (Suc k) c = hits guess secret k c" for c
      using False by (auto simp: hits_Suc)
    ultimately show ?thesis
      using False len res cnt by (auto simp: greenInv_def st less_Suc_eq)
  next
    case True
    let ?c = "guess ! k"
    have room: "card (hits guess secret k ?c) < count_list secret ?c"
      using True by (intro hits_room) auto
    with cnt[of ?c] have pos: "0 < getOr sl ?c 0" by linarith
    then have g1: "getOr sl ?c 1 = getOr sl ?c 0"
      by (auto simp: getOr_def split: option.splits)
    have mk: "markGreen guess secret st k = (result[k := Green], sl(?c \<mapsto> getOr sl ?c 0 - 1))"
      using True g1 by (simp add: markGreen_def st)
    have c1: "getOr (sl(?c \<mapsto> getOr sl ?c 0 - 1)) c 0 + card (hits guess secret (Suc k) c)
                = count_list secret c" for c
    proof (cases "c = ?c")
      case True
      then show ?thesis
        using cnt[of ?c] pos \<open>k < length secret \<and> guess ! k = secret ! k\<close>
        by (simp add: getOr_upd hits_Suc hits_notin)
    next
      case False
      then show ?thesis
        using cnt[of c] by (auto simp: getOr_upd hits_Suc)
    qed
    have r1: "result[k := Green] ! i =
        (if i < Suc k \<and> i < length secret \<and> guess ! i = secret ! i then Green else Grey)"
      if "i < length guess" for i
      using that res[of i] True len assms(2) by (auto simp: nth_list_update less_Suc_eq)
    show ?thesis
      unfolding mk greenInv_def using len r1 c1 by simp
  qed
qed

lemma greenInv_foldl:
  assumes "k \<le> length guess"
  shows "greenInv guess secret k
           (foldl (markGreen guess secret) (replicate (length guess) Grey, countSecret secret) [0..<k])"
  using assms
proof (induction k)
  case 0
  then show ?case
    by (simp add: greenInv_def getOr_countSecret hits_def)
next
  case (Suc k)
  then show ?case
    by (simp add: greenInv_step)
qed

lemma marked_finite [simp]: "finite (marked guess result c)"
  by (simp add: marked_def)

lemma marked_update:
  assumes "i < length guess" "length result = length guess" "result ! i = Grey"
  shows "marked guess (result[i := Yellow]) c =
           (if guess ! i = c then insert i (marked guess result c) else marked guess result c)"
  using assms by (auto simp: marked_def nth_list_update)

lemma yellowInv_step:
  assumes "yellowInv guess secret st" "i < length guess"
  shows "yellowInv guess secret (markYellow guess st i)"
proof -
  obtain result sl where st: "st = (result, sl)" by (cases st)
  from assms(1) have len: "length result = length guess"
    and cnt: "\<And>c. card (marked guess result c) + getOr sl c 0 \<le> count_list secret c"
    by (auto simp: yellowInv_def st)
  show ?thesis
  proof (cases "result ! i = Grey \<and> 0 < getOr sl (guess ! i) 0")
    case False
    then have "markYellow guess st i = st"
      by (auto simp: markYellow_def st Let_def)
    then show ?thesis using assms(1) by simp
  next
    case True
    then have mk: "markYellow guess st i =
        (result[i := Yellow], sl(guess ! i \<mapsto> getOr sl (guess ! i) 0 - 1))"
      by (simp add: markYellow_def st Let_def)
    have notin: "i \<notin> marked guess result c" for c
      using True by (simp add: marked_def)
    have "card (marked guess (result[i := Yellow]) c)
            + getOr (sl(guess ! i \<mapsto> getOr sl (guess ! i) 0 - 1)) c 0 \<le> count_list secret c" for c
    proof (cases "guess ! i = c")
      case same: True
      have "card (insert i (marked guess result c)) = Suc (card (marked guess result c))"
        using notin[of c] by simp
      then show ?thesis
        using cnt[of c] True same
        by (simp add: marked_update[OF assms(2) len] getOr_upd)
    next
      case False
      then show ?thesis
        using cnt[of c] True
        by (auto simp: marked_update[OF assms(2) len] getOr_upd)
    qed
    then show ?thesis
      unfolding mk yellowInv_def using len by simp
  qed
qed

lemma yellowInv_foldl:
  assumes "yellowInv guess secret st" "k \<le> length guess"
  shows "yellowInv guess secret (foldl (markYellow guess) st [0..<k])"
  using assms(2)
proof (induction k)
  case 0
  then show ?case using assms(1) by simp
next
  case (Suc k)
  then show ?case by (simp add: yellowInv_step)
qed

lemma greenInv_yellowInv:
  assumes "greenInv guess secret (length guess) st"
  shows "yellowInv guess secret st"
proof -
  obtain result sl where st: "st = (result, sl)" by (cases st)
  from assms have len: "length result = length guess"
    and res: "\<And>i. i < length guess \<Longrightarrow>
           result ! i = (if i < length secret \<and> guess ! i = secret ! i then Green else Grey)"
    and cnt: "\<And>c. getOr sl c 0 + card (hits guess secret (length guess) c) = count_list secret c"
    by (auto simp: greenInv_def st)
  have "marked guess result c = hits guess secret (length guess) c" for c
    using res by (auto simp: marked_def hits_def split: if_splits)
  then show ?thesis
    using len cnt by (simp add: yellowInv_def st add.commute)
qed

lemma computePattern_inv:
  "\<exists>sl. yellowInv guess secret (computePattern guess secret, sl)"
proof -
  let ?st1 = "foldl (markGreen guess secret) (replicate (length guess) Grey, countSecret secret)
                [0..<length guess]"
  let ?st2 = "foldl (markYellow guess) ?st1 [0..<length guess]"
  have "yellowInv guess secret ?st2"
    by (intro yellowInv_foldl greenInv_yellowInv greenInv_foldl) simp_all
  moreover have "?st2 = (computePattern guess secret, snd ?st2)"
    by (simp add: computePattern_def Let_def)
  ultimately show ?thesis by metis
qed

lemma length_computePattern: "length (computePattern guess secret) = length guess"
  using computePattern_inv[of guess secret] by (auto simp: yellowInv_def)

lemma count_zip_card:
  "count_list (zip xs ys) (a, b) = card {i. i < length xs \<and> i < length ys \<and> xs ! i = a \<and> ys ! i = b}"
proof -
  have "count_list (zip xs ys) (a, b) = length (filter ((=) (a, b)) (zip xs ys))"
    by (simp add: count_list_eq_length_filter)
  also have "\<dots> = card {i. i < length (zip xs ys) \<and> (a, b) = zip xs ys ! i}"
    by (rule length_filter_conv_card)
  also have "{i. i < length (zip xs ys) \<and> (a, b) = zip xs ys ! i}
           = {i. i < length xs \<and> i < length ys \<and> xs ! i = a \<and> ys ! i = b}"
    by auto
  finally show ?thesis .
qed

text \<open>
  Claim C2. For every guess, secret and letter, the slots of the guess that hold the
  letter and that the simulator marks correct, together with those it marks present, are
  at most as many as the occurrences of the letter in the secret. (The claim is about
  pairs of equal length; the bound holds for every pair.)
\<close>

theorem computePattern_no_overcount:
  "count_list (zip guess (computePattern guess secret)) (c, Green)
     + count_list (zip guess (computePattern guess secret)) (c, Yellow)
   \<le> count_list secret c"
proof -
  let ?p = "computePattern guess secret"
  let ?G = "{i. i < length guess \<and> i < length ?p \<and> guess ! i = c \<and> ?p ! i = Green}"
  let ?Y = "{i. i < length guess \<and> i < length ?p \<and> guess ! i = c \<and> ?p ! i = Yellow}"
  obtain sl where inv: "yellowInv guess secret (?p, sl)"
    using computePattern_inv by blast
  have fin: "finite ?G" "finite ?Y" by simp_all
  have disj: "?G \<inter> ?Y = {}" by auto
  have sub: "?G \<union> ?Y \<subseteq> marked guess ?p c"
    by (auto simp: marked_def)
  have "card ?G + card ?Y = card (?G \<union> ?Y)"
    using fin disj by (simp add: card_Un_disjoint)
  also have "\<dots> \<le> card (marked guess ?p c)"
    by (rule card_mono[OF marked_finite sub])
  also have "\<dots> \<le> count_list secret c"
    using inv by (auto simp: yellowInv_def intro: add_leD1)
  finally show ?thesis
    by (simp add: count_zip_card)
qed

theorem computePattern_no_overcount_witness:
  "count_list (zip ''SPEED'' (computePattern ''SPEED'' ''ABIDE'')) (CHR ''E'', Green)
     + count_list (zip ''SPEED'' (computePattern ''SPEED'' ''ABIDE'')) (CHR ''E'', Yellow)
   \<le> count_list ''ABIDE'' CHR ''E''"
  by (rule computePattern_no_overcount)

section \<open>Guessing the secret itself\<close>

lemma markYellow_no_grey:
  assumes "\<forall>i<length guess. result ! i \<noteq> Grey" "k \<le> length guess"
  shows "foldl (markYellow guess) (result, sl) [0..<k] = (result, sl)"
  using assms(2)
proof (induction k)
  case 0
  then show ?case by simp
next
  case (Suc k)
  then show ?case using assms(1) by (simp add: markYellow_def Let_def)
qed

text \<open>
  Claim C4. For every word, the simulated feedback of guessing the word against itself
  is correct (green) at every position.
\<close>

theorem computePattern_self: "computePattern w w = replicate (length w) Green"
proof -
  let ?st1 = "foldl (markGreen w w) (replicate (length w) Grey, countSecret w) [0..<length w]"
  obtain result sl where st1: "?st1 = (result, sl)" by (cases ?st1)
  have "greenInv w w (length w) ?st1"
    by (rule greenInv_foldl) simp
  then have len: "length result = length w" and res: "\<forall>i<length w. result ! i = Green"
    by (auto simp: greenInv_def st1)
  then have result: "result = replicate (length w) Green"
    by (intro nth_equalityI) simp_all
  have "foldl (markYellow w) (result, sl) [0..<length w] = (result, sl)"
    by (rule markYellow_no_grey) (use res in simp_all)
  then show ?thesis
    by (simp add: computePattern_def Let_def st1 result)
qed

theorem computePattern_self_witness:
  "computePattern ''STARE'' ''STARE'' = [Green, Green, Green, Green, Green]"
  using computePattern_self[of "''STARE''"] by (simp add: numeral_eq_Suc)


section \<open>Feedback with a yellow letter excludes the secret\<close>

lemma bot_unit_service: "(self :: unit Bot)\<lparr>dictionaryService := u\<rparr> = self"
  by (cases self) simp

lemma filterWords_acceptAll_state:
  "filterWords acceptAll self a wordList = Inr (ws, s) \<Longrightarrow> s = self"
  by (auto simp: filterWords_def generateWordCombinations_def acceptAll_def Let_def
        bot_unit_service split: sum.splits if_splits)

lemma crane_analysis:
  "analyzeResults ''CRANE'' (feedbackFor ''CRANE'' ''STARE'') = Inr craneAnalysis"
  by code_simp

lemma crane_constraints: "normalizeConstraints 5 craneAnalysis = Inr craneConstraints"
  by code_simp

lemma crane_filterWords:
  "(case filterWords acceptAll (newBot defaultConfig ()) craneAnalysis
           (startingWords (newBot defaultConfig ())) of
      Inr (ws, s) \<Rightarrow> ws = [''RAAAE'', ''RRARE'', ''RAARE'', ''RAARE'', ''RRARE'']
    | Inl e \<Rightarrow> False)"
  by code_simp

text \<open>
  Claim C1 (filter soundness: the secret is never excluded by constraints built from its
  own feedback) does not hold of the code. Guess CRANE against the secret STARE: R is
  yellow, \<open>normalizeConstraints\<close> bans R at every position whose green cell is not R,
  that is at all five, and the filter drops STARE, which has its R at position 3. Run on
  the configured starting words, which contain STARE, with a dictionary that accepts
  every word, \<open>filterWords\<close> finds no word left and returns synthesized words instead.
\<close>

theorem filter_excludes_secret:
  "analyzeResults ''CRANE'' (feedbackFor ''CRANE'' ''STARE'') = Inr craneAnalysis \<and>
   normalizeConstraints 5 craneAnalysis = Inr craneConstraints \<and>
   map_of (bannedPos craneConstraints) CHR ''R'' = Some [0, 1, 2, 3, 4] \<and>
   ''STARE'' ! 3 = CHR ''R'' \<and>
   \<not> matchesConstraints craneConstraints ''STARE'' \<and>
   filter (matchesConstraints craneConstraints) [''STARE'', ''CRANE'', ''SLATE'', ''TRACE''] = [] \<and>
   ''STARE'' \<in> set (startingWords (newBot defaultConfig ())) \<and>
   filterWords acceptAll (newBot defaultConfig ()) craneAnalysis
       (startingWords (newBot defaultConfig ()))
     = Inr ([''RAAAE'', ''RRARE'', ''RAARE'', ''RAARE'', ''RRARE''], newBot defaultConfig ())"
proof -
  have 1: "\<not> matchesConstraints craneConstraints ''STARE''"
    by code_simp
  have 2: "filter (matchesConstraints craneConstraints) [''STARE'', ''CRANE'', ''SLATE'', ''TRACE''] = []"
    by code_simp
  have 3: "''STARE'' \<in> set (startingWords (newBot defaultConfig ()))"
    by (simp add: newBot_def defaultConfig_def)
  have 4: "map_of (bannedPos craneConstraints) CHR ''R'' = Some [0, 1, 2, 3, 4]"
    by (simp add: craneConstraints_def)
  obtain r where r: "filterWords acceptAll (newBot defaultConfig ()) craneAnalysis
       (startingWords (newBot defaultConfig ())) = r" by simp
  have 5: "r = Inr ([''RAAAE'', ''RRARE'', ''RAARE'', ''RAARE'', ''RRARE''], newBot defaultConfig ())"
  proof (cases r)
    case (Inl e)
    with crane_filterWords r show ?thesis by simp
  next
    case (Inr p)
    obtain ws s where p: "p = (ws, s)" by (cases p)
    from crane_filterWords r Inr p
    have "ws = [''RAAAE'', ''RRARE'', ''RAARE'', ''RAARE'', ''RRARE'']" by simp
    moreover from filterWords_acceptAll_state r Inr p have "s = newBot defaultConfig ()" by blast
    ultimately show ?thesis using Inr p by simp
  qed
  show ?thesis
    using crane_analysis crane_constraints 1 2 3 4 5 r by simp
qed

section \<open>A repeated letter that is yellow and then grey\<close>

lemma speed_analysis:
  "analyzeResults ''SPEED'' [Absent, Absent, Present, Absent, Present] = Inr speedAnalysis"
  by code_simp

lemma speed_constraints: "normalizeConstraints 5 speedAnalysis = Inr speedConstraints"
  by code_simp

text \<open>
  Claim C3 (an absent result for a letter that is correct or present elsewhere in the
  guess sets the letter's maximum count to the number of its correct and present
  occurrences) does not hold of the code. Guess SPEED against the secret ABIDE: the first
  E is present, the second absent, one E is known. The first pass of \<open>analyzeResults\<close>
  records the pair (1, 1) for E, the loop over \<open>charResults\<close> overwrites it with a
  maximum of \<open>null\<close>, and \<open>normalizeConstraints\<close> has no maximum for E either, since E
  is not in the set \<open>absent\<close>.
\<close>

theorem duplicate_letter_max_not_set:
  "feedbackFor ''SPEED'' ''ABIDE'' = [Absent, Absent, Present, Absent, Present] \<and>
   knownCount ''SPEED'' [Absent, Absent, Present, Absent, Present] CHR ''E'' = 1 \<and>
   analyzeResults ''SPEED'' [Absent, Absent, Present, Absent, Present] = Inr speedAnalysis \<and>
   map_of (letterCounts speedAnalysis) CHR ''E'' = Some (1, None) \<and>
   normalizeConstraints 5 speedAnalysis = Inr speedConstraints \<and>
   map_of (maxCounts speedConstraints) CHR ''E'' = None"
proof -
  have "feedbackFor ''SPEED'' ''ABIDE'' = [Absent, Absent, Present, Absent, Present]"
    by code_simp
  moreover have "knownCount ''SPEED'' [Absent, Absent, Present, Absent, Present] CHR ''E'' = 1"
    by code_simp
  moreover have "map_of (letterCounts speedAnalysis) CHR ''E'' = Some (1, None)"
    by (simp add: speedAnalysis_def)
  moreover have "map_of (maxCounts speedConstraints) CHR ''E'' = None"
    by (simp add: speedConstraints_def)
  ultimately show ?thesis
    using speed_analysis speed_constraints by simp
qed

section \<open>Conflicting bounds\<close>




section \<open>The cache stays within its capacity\<close>











section \<open>Normalization never fails\<close>

text \<open>Every maximum that \<open>normalizeConstraints\<close> records is a copy of the minimum of the
  same letter, so its own check always passes.\<close>

lemma set_update_subset: "set (AList.update k v al) \<subseteq> insert (k, v) (set al)"
  by (induction al) auto

lemma maxCounts_addGreen: "maxCounts (foldl addGreen cs ps) = maxCounts cs"
  by (induction ps arbitrary: cs) (auto simp: addGreen_def split: prod.splits)

lemma maxCounts_addPresent: "maxCounts (foldl (addPresent n a) cs ps) = maxCounts cs"
  by (induction ps arbitrary: cs) (auto simp: addPresent_def)

lemma boundsAgree_addAbsent: "boundsAgree cs \<Longrightarrow> boundsAgree (addAbsent cs ch)"
  using set_update_subset[of ch "getOr (map_of (minCounts cs)) ch 0" "maxCounts cs"]
  by (auto simp: boundsAgree_def addAbsent_def list_all_iff)

lemma boundsAgree_foldl: "boundsAgree cs \<Longrightarrow> boundsAgree (foldl addAbsent cs chs)"
  by (induction chs arbitrary: cs) (simp_all add: boundsAgree_addAbsent)

lemma boundsAgree_build: "boundsAgree (buildConstraints n a)"
  unfolding buildConstraints_def Let_def
  by (rule boundsAgree_foldl)
     (simp add: boundsAgree_def maxCounts_addPresent maxCounts_addGreen emptyConstraints_def)

lemma validateCounts_agree:
  assumes "boundsAgree cs"
  shows "validateCounts (minCounts cs) (maxCounts cs) = Inr ()"
proof -
  from assms
  have "find (\<lambda>(ch, mx). getOr (map_of (minCounts cs)) ch 0 > mx) (maxCounts cs) = None"
    by (auto simp: boundsAgree_def list_all_iff find_None_iff)
  then show ?thesis by (simp add: validateCounts_def)
qed

lemma normalizeConstraints_total: "normalizeConstraints n a = Inr (buildConstraints n a)"
  by (simp add: normalizeConstraints_def Let_def validateCounts_agree boundsAgree_build)

section \<open>The stages of \<open>filterWords\<close>\<close>






section \<open>The selector in the endgame\<close>

text \<open>
  Claim C5. Whenever the candidate pool of the selector (the candidates passed in, or
  else the result of \<open>filterWords\<close> on the starting words) has at most two words and one
  of them has not been guessed, \<open>generateNextGuess\<close> returns the first word of the pool
  that is not among the previous guesses; no score, entropy or bucket size enters the
  result.
\<close>

theorem endgame_selection:
  assumes "(case candidates of
              Some c \<Rightarrow> Inr (c, self)
            | None \<Rightarrow> filterWords validateWords self analysis (startingWords self))
           = Inr (remainingWords, self1)"
    and "length remainingWords \<le> 2"
    and "\<exists>w \<in> set remainingWords. w \<notin> set previousGuesses"
  shows "generateNextGuess validateWords self analysis previousGuesses candidates
           = Inr (Some (hd (filter (\<lambda>w. w \<notin> set previousGuesses) remainingWords)),
                  snd (enumerateCandidates validateWords self1 500)) \<and>
         find (\<lambda>w. w \<notin> set previousGuesses) remainingWords
           = Some (hd (filter (\<lambda>w. w \<notin> set previousGuesses) remainingWords))"
proof -
  from assms(3) have ne: "filter (\<lambda>w. w \<notin> set previousGuesses) remainingWords \<noteq> []"
    by (auto simp: filter_empty_conv)
  then have "remainingWords \<noteq> []" by auto
  then have "generateNextGuess validateWords self analysis previousGuesses candidates
           = Inr (Some (hd (filter (\<lambda>w. w \<notin> set previousGuesses) remainingWords)),
                  snd (enumerateCandidates validateWords self1 500))"
    using assms(1,2) ne
    by (simp add: generateNextGuess_def Let_def split: prod.splits)
  moreover have "find (\<lambda>w. w \<notin> set previousGuesses) remainingWords
           = Some (hd (filter (\<lambda>w. w \<notin> set previousGuesses) remainingWords))"
    using ne by (induction remainingWords) auto
  ultimately show ?thesis by simp
qed

theorem endgame_selection_witness:
  "generateNextGuess rejectAll (newBot defaultConfig ())
     (emptyAnalysis\<lparr>positions := [(0, CHR ''S''), (1, CHR ''T''), (2, CHR ''A''), (3, CHR ''R'')]\<rparr>)
     [''STARE''] (Some [''STARE'', ''STARK''])
   = Inr (Some ''STARK'', snd (enumerateCandidates rejectAll (newBot defaultConfig ()) 500))"
proof -
  have h1: "(case Some [''STARE'', ''STARK''] of
              Some c \<Rightarrow> Inr (c, newBot defaultConfig ())
            | None \<Rightarrow> filterWords rejectAll (newBot defaultConfig ())
                (emptyAnalysis\<lparr>positions := [(0, CHR ''S''), (1, CHR ''T''), (2, CHR ''A''), (3, CHR ''R'')]\<rparr>)
                (startingWords (newBot defaultConfig ())))
           = Inr ([''STARE'', ''STARK''], newBot defaultConfig ())"
    by simp
  have h2: "length [''STARE'', ''STARK''] \<le> 2" by simp
  have h3: "\<exists>w \<in> set [''STARE'', ''STARK'']. w \<notin> set [''STARE'']" by simp
  from endgame_selection[OF h1 h2 h3] show ?thesis by simp
qed

section \<open>Where a previous guess can come back\<close>

text \<open>Every branch of the selector but one returns a word that has not been guessed:
  a word that has been guessed can only come from \<open>getBestStartingWord\<close>.\<close>

lemma rankByScore_set:
  assumes "rankByScore f xs = Inr ys"
  shows "set ys = set xs \<and> length ys = length xs"
proof -
  from assms have "ys = map fst (sort_key (\<lambda>(x, s). - s) (map (\<lambda>x. (x, projr (f x))) xs))"
    by (auto simp: rankByScore_def split: option.splits)
  then show ?thesis by (force simp: image_iff)
qed

lemma sortByScoreDesc_set:
  assumes "sortByScoreDesc f xs = Inr ys"
  shows "set ys = set xs \<and> length ys = length xs"
  using assms by (auto simp: sortByScoreDesc_def split: if_splits option.splits)

lemma hd_rank_in:
  assumes "set ys = set xs \<and> length ys = length xs" "xs \<noteq> []"
  shows "hd ys \<in> set xs"
proof -
  from assms have "ys \<noteq> []" by auto
  then have "hd ys \<in> set ys" by simp
  with assms show ?thesis by simp
qed

lemma minimaxScores_keys:
  "fst ` set (foldl (\<lambda>m word. if word \<notin> set prev then AList.update word (g word) m else m) m0 ws)
     \<subseteq> fst ` set m0 \<union> {w \<in> set ws. w \<notin> set prev}"
proof (induction ws arbitrary: m0)
  case Nil
  then show ?case by simp
next
  case (Cons w ws)
  show ?case
    using Cons.IH[of "if w \<notin> set prev then AList.update w (g w) m0 else m0"]
    by (auto simp: dom_update split: if_splits)
qed

lemma minimaxBranch_fresh:
  assumes "minimaxBranch self a prev rem avail = Some (Inr w)"
  shows "w \<notin> set prev"
proof -
  let ?M = "foldl (\<lambda>m word. if word \<notin> set prev
                             then AList.update word (worstCaseBucket word rem) m else m) [] avail"
  let ?S = "sort_key snd ?M"
  have keys: "fst ` set ?S \<subseteq> {w. w \<notin> set prev}"
    using minimaxScores_keys[of prev "\<lambda>word. worstCaseBucket word rem" "[]" avail] by auto
  from assms obtain bw bs rest where S: "?S = (bw, bs) # rest"
    by (cases ?S) (auto simp: minimaxBranch_def Let_def)
  let ?T = "map fst (filter (\<lambda>(word, score). score = bs) ?S)"
  have T: "set ?T \<subseteq> {w. w \<notin> set prev}"
    using keys by (auto simp: image_iff)
  have bw: "bw \<notin> set prev"
    using keys S by (metis (mono_tags, lifting) fst_conv image_eqI list.set_intros(1) mem_Collect_eq subsetD)
  show ?thesis
  proof (cases "length ?T > 1")
    case False
    with assms S bw show ?thesis
      by (simp add: minimaxBranch_def Let_def)
  next
    case True
    with assms S obtain ranked where
      r: "rankByScore
            (\<lambda>word. case scoreWord self word (Some a) (Some rem) of
                       Inl e \<Rightarrow> Inl e
                     | Inr frequencyScore \<Rightarrow>
                         Inr (entropyOf word rem * (7 / 10) + frequencyScore * (3 / 10)))
            ?T = Inr ranked" and w: "w = hd ranked"
      by (auto simp: minimaxBranch_def Let_def split: sum.splits)
    from True have "?T \<noteq> []" by auto
    from hd_rank_in[OF rankByScore_set[OF r] this] T w show ?thesis by auto
  qed
qed

lemma entropyBranch_fresh:
  assumes "entropyBranch self a prev rem avail = Inr (Some w, s)"
  shows "w \<notin> set prev \<or> getBestStartingWord self = (Some w, s)"
proof -
  let ?xs = "filter (\<lambda>word. word \<notin> set prev)
               (take (min (if length rem > 50 then 200 else 100) (length avail)) avail)"
  from assms obtain ranked where
    r: "rankByScore
          (\<lambda>word. case scoreWord self word (Some a) (Some rem) of
                     Inl e \<Rightarrow> Inl e
                   | Inr frequencyScore \<Rightarrow>
                       Inr (entropyOf word rem * (if length rem > 50 then 8 / 10 else 6 / 10)
                            + frequencyScore * (1 - (if length rem > 50 then 8 / 10 else 6 / 10))))
          ?xs = Inr ranked"
    by (auto simp: entropyBranch_def Let_def split: sum.splits)
  show ?thesis
  proof (cases ranked)
    case Nil
    with assms r show ?thesis
      by (simp add: entropyBranch_def Let_def)
  next
    case (Cons best rest)
    with assms r have "w = best" "s = self"
      by (simp_all add: entropyBranch_def Let_def)
    moreover have "best \<in> set ?xs"
      using rankByScore_set[OF r] Cons by auto
    ultimately show ?thesis by auto
  qed
qed

lemma beamFallback_fresh:
  assumes "beamFallback vw self a prev = Inr (Some w, s)"
  shows "w \<notin> set prev \<or> (\<exists>b. getBestStartingWord b = (Some w, s))"
proof -
  obtain beam self1 where e: "enumerateCandidates vw self 300 = (beam, self1)"
    by (cases "enumerateCandidates vw self 300")
  let ?vb = "filter (\<lambda>word. word \<notin> set prev \<and> matchesAnalysis a word) beam"
  let ?lf = "filter (\<lambda>w. w \<notin> set prev \<and> looseMatch a w) beam"
  show ?thesis
  proof (cases "?vb \<noteq> []")
    case True
    with assms e obtain scored where
      r: "rankByScore (\<lambda>w. scoreWord self1 w (Some a) (Some ?vb)) ?vb = Inr scored"
      and w: "w = hd scored"
      by (auto simp: beamFallback_def Let_def split: sum.splits)
    from hd_rank_in[OF rankByScore_set[OF r] True] w show ?thesis by auto
  next
    case noBeam: False
    show ?thesis
    proof (cases "?lf \<noteq> []")
      case True
      with assms e noBeam obtain sw where
        r: "sortByScoreDesc (\<lambda>w. scoreWord self1 w (Some a) (Some ?lf)) ?lf = Inr sw"
        and w: "w = hd sw"
        by (auto simp: beamFallback_def Let_def split: sum.splits)
      from hd_rank_in[OF sortByScoreDesc_set[OF r] True] w show ?thesis by auto
    next
      case False
      with assms e noBeam have "getBestStartingWord self1 = (Some w, s)"
        by (simp add: beamFallback_def Let_def)
      then show ?thesis by blast
    qed
  qed
qed

lemma hd_filter_holds: "filter P xs \<noteq> [] \<Longrightarrow> P (hd (filter P xs))"
  by (induction xs) auto

lemma generateNextGuess_fresh:
  assumes "generateNextGuess vw self a prev cands = Inr (Some w, s)"
  shows "w \<notin> set prev \<or> (\<exists>b. getBestStartingWord b = (Some w, s))"
proof -
  from assms obtain rem self1 where
    pool: "(case cands of Some c \<Rightarrow> Inr (c, self)
            | None \<Rightarrow> filterWords vw self a (startingWords self)) = Inr (rem, self1)"
    by (auto simp: generateNextGuess_def split: sum.splits)
  show ?thesis
  proof (cases "rem = []")
    case True
    with assms pool have "beamFallback vw self1 a prev = Inr (Some w, s)"
      by (simp add: generateNextGuess_def)
    then show ?thesis by (rule beamFallback_fresh)
  next
    case False
    obtain all self2 where e: "enumerateCandidates vw self1 500 = (all, self2)"
      by (cases "enumerateCandidates vw self1 500")
    let ?av = "filter (\<lambda>word. word \<notin> set prev) all"
    let ?np = "filter (\<lambda>word. word \<notin> set prev) rem"
    from assms pool False e
    consider (endgame) "?np \<noteq> []" "w = hd ?np"
      | (minimax) "minimaxBranch self2 a prev rem ?av = Some (Inr w)"
      | (entropy) "entropyBranch self2 a prev rem ?av = Inr (Some w, s)"
      by (auto simp: generateNextGuess_def Let_def split: if_splits option.splits sum.splits)
    then show ?thesis
    proof cases
      case endgame
      from hd_filter_holds[OF endgame(1)] endgame(2) show ?thesis by simp
    next
      case minimax
      then show ?thesis by (simp add: minimaxBranch_fresh)
    next
      case entropy
      from entropyBranch_fresh[OF this] show ?thesis by blast
    qed
  qed
qed

section \<open>The starting-word fallback repeats a guess\<close>

lemma plainScore_base: "plainScore self w = baseScore self w"
  by (simp add: plainScore_def scoreWord_def candidateScore_def)

lemma enumerateCandidates_rejectAll:
  "enumerateCandidates rejectAll self limit = ([], self)"
  by (simp add: enumerateCandidates_def rejectAll_def Let_def)

lemma generateWordCombinations_rejectAll:
  "generateWordCombinations rejectAll self pattern a = ([], self)"
  by (simp add: generateWordCombinations_def rejectAll_def Let_def)

lemma filterWords_rejectAll:
  "filterWords rejectAll self a wordList = Inr ([], self)"
  by (simp add: filterWords_def normalizeConstraints_total rejectAll_def Let_def
        generateWordCombinations_rejectAll)

lemma beamFallback_rejectAll:
  "beamFallback rejectAll self a prev = Inr (getBestStartingWord self)"
  by (simp add: beamFallback_def enumerateCandidates_rejectAll)

lemma generateNextGuess_rejectAll:
  "generateNextGuess rejectAll self a prev None = Inr (getBestStartingWord self)"
  by (simp add: generateNextGuess_def filterWords_rejectAll beamFallback_rejectAll)

lemma sorted_starting_words:
  "sort_key (\<lambda>w. - baseScore (newBot defaultConfig ()) w) (startingWords (newBot defaultConfig ())) =
    [''ARISE'', ''ARISE'', ''STARE'', ''STARE'', ''STARE'', ''TRACE'',
     ''TRACE'', ''TRACE'', ''CRANE'', ''CRANE'', ''CRANE'', ''RAISE'',
     ''RAISE'', ''SLATE'', ''SLATE'', ''SLATE'', ''ADIEU'', ''ADIEU'',
     ''AUDIO'', ''AUDIO'']"
  by code_simp

lemma best_starting_word:
  "fst (getBestStartingWord (newBot defaultConfig ())) = Some ''ARISE''"
  by (simp add: getBestStartingWord_def plainScore_base sorted_starting_words Let_def)

lemma arise_analysis:
  "analyzeResults ''ARISE'' (feedbackFor ''ARISE'' ''MOUNT'') = Inr ariseAnalysis"
  by code_simp

text \<open>
  Claim C9 (the word returned is never one of the words already guessed) does not hold
  of the code in the starting-word fallback. The configured bot opens with ARISE, its
  best starting word. Against the secret MOUNT every letter is absent; with a dictionary
  that knows none of the synthesized words no candidate is left, the beam search and the
  loose fallback yield nothing, and \<open>getBestStartingWord\<close>, which does not look at the
  previous guesses, returns ARISE again.
\<close>

theorem fallback_repeats_guess:
  "analyzeResults ''ARISE'' (feedbackFor ''ARISE'' ''MOUNT'') = Inr ariseAnalysis \<and>
   fst (getBestStartingWord (newBot defaultConfig ())) = Some ''ARISE'' \<and>
   generateNextGuess rejectAll (newBot defaultConfig ()) ariseAnalysis [''ARISE''] None
     = Inr (Some ''ARISE'', snd (getBestStartingWord (newBot defaultConfig ()))) \<and>
   ''ARISE'' \<in> set [''ARISE'']"
proof -
  obtain w s where g: "getBestStartingWord (newBot defaultConfig () :: unit Bot) = (w, s)"
    by (cases "getBestStartingWord (newBot defaultConfig () :: unit Bot)")
  with best_starting_word have "w = Some ''ARISE''" by simp
  then show ?thesis
    using arise_analysis g best_starting_word by (simp add: generateNextGuess_rejectAll)
qed


section \<open>Entropy of the partition by feedback pattern\<close>

lemma bucketsOf_step:
  assumes "bucketsOf f ps ys"
  shows "bucketsOf f
           (AList.update (f x) ((case map_of ps (f x) of None \<Rightarrow> [] | Some b \<Rightarrow> b) @ [x]) ps)
           (ys @ [x])"
proof -
  from assms have d: "distinct (map fst ps)"
    and m: "\<And>k. map_of ps k = (if k \<in> f ` set ys then Some (filter (\<lambda>y. f y = k) ys) else None)"
    by (simp_all add: bucketsOf_def)
  have old: "(case map_of ps (f x) of None \<Rightarrow> [] | Some b \<Rightarrow> b) = filter (\<lambda>y. f y = f x) ys"
  proof (cases "f x \<in> f ` set ys")
    case True
    then show ?thesis by (simp add: m)
  next
    case False
    then have "\<forall>y \<in> set ys. f y \<noteq> f x"
      by (auto simp: image_iff)
    then have "filter (\<lambda>y. f y = f x) ys = []"
      by (rule filter_False)
    with False show ?thesis by (simp add: m)
  qed
  show ?thesis
    unfolding bucketsOf_def old
    by (auto simp: distinct_update d update_conv' m fun_eq_iff)
qed

lemma bucketsOf_foldl:
  "bucketsOf f ps ys \<Longrightarrow>
   bucketsOf f
     (foldl (\<lambda>ps x. AList.update (f x) ((case map_of ps (f x) of None \<Rightarrow> [] | Some b \<Rightarrow> b) @ [x]) ps)
        ps xs)
     (ys @ xs)"
proof (induction xs arbitrary: ps ys)
  case Nil
  then show ?case by simp
next
  case (Cons x xs)
  from Cons.IH[OF bucketsOf_step[OF Cons.prems, of x]] show ?case by simp
qed

lemma bucketsOf_partition:
  "bucketsOf (computePattern guess) (partitionByPattern guess secrets) secrets"
proof -
  have "bucketsOf (computePattern guess) [] []"
    by (simp add: bucketsOf_def)
  from bucketsOf_foldl[OF this, of secrets] show ?thesis
    by (simp add: partitionByPattern_def Let_def)
qed

lemma foldl_minus: "foldl (\<lambda>e x. e - g x) a xs = a - sum_list (map g xs)"
  for a :: real
  by (induction xs arbitrary: a) simp_all

text \<open>A sum over the buckets is a sum over the classes of the key function.\<close>

lemma bucketsOf_sum:
  fixes g :: "nat \<Rightarrow> real"
  assumes "bucketsOf f ps ys"
  shows "sum_list (map (\<lambda>(k, b). g (length b)) ps)
           = (\<Sum>k \<in> f ` set ys. g (length (filter (\<lambda>y. f y = k) ys)))"
proof -
  from assms have d: "distinct (map fst ps)"
    and m: "\<And>k. map_of ps k = (if k \<in> f ` set ys then Some (filter (\<lambda>y. f y = k) ys) else None)"
    by (simp_all add: bucketsOf_def)
  have mem: "b = filter (\<lambda>y. f y = k) ys" if "(k, b) \<in> set ps" for k b
  proof -
    from that d have "map_of ps k = Some b" by simp
    then show ?thesis by (auto simp: m split: if_splits)
  qed
  have keys: "set (map fst ps) = f ` set ys"
  proof -
    have "set (map fst ps) = dom (map_of ps)" by (simp add: dom_map_of_conv_image_fst)
    also have "\<dots> = f ` set ys" by (auto simp: m dom_def)
    finally show ?thesis .
  qed
  have "map (\<lambda>(k, b). g (length b)) ps
          = map ((\<lambda>k. g (length (filter (\<lambda>y. f y = k) ys))) \<circ> fst) ps"
    by (rule map_cong) (use mem in auto)
  then have "sum_list (map (\<lambda>(k, b). g (length b)) ps)
          = sum_list (map (\<lambda>k. g (length (filter (\<lambda>y. f y = k) ys))) (map fst ps))"
    by (simp only: map_map)
  also have "\<dots> = (\<Sum>k \<in> set (map fst ps). g (length (filter (\<lambda>y. f y = k) ys)))"
    using d by (rule sum_list_distinct_conv_sum_set)
  finally show ?thesis using keys by simp
qed

lemma class_sizes_sum:
  "finite A \<Longrightarrow> f ` set ys \<subseteq> A \<Longrightarrow> (\<Sum>k \<in> A. length (filter (\<lambda>y. f y = k) ys)) = length ys"
proof (induction ys)
  case Nil
  then show ?case by simp
next
  case (Cons y ys)
  have "(\<Sum>k \<in> A. length (filter (\<lambda>z. f z = k) (y # ys)))
          = (\<Sum>k \<in> A. (if f y = k then 1 else 0) + length (filter (\<lambda>z. f z = k) ys))"
    by (intro sum.cong) auto
  also have "\<dots> = (\<Sum>k \<in> A. if f y = k then 1 else 0) + (\<Sum>k \<in> A. length (filter (\<lambda>z. f z = k) ys))"
    by (simp add: sum.distrib)
  also have "(\<Sum>k \<in> A. if f y = k then 1 else 0) = (1::nat)"
    using Cons.prems by (simp add: sum.delta')
  finally show ?case using Cons by simp
qed

lemma class_size_count: "length (filter (\<lambda>y. f y = k) ys) = count_list (map f ys) k"
  by (induction ys) auto

lemma distinct_count_one: "distinct zs \<longleftrightarrow> (\<forall>k \<in> set zs. count_list zs k = 1)"
proof (induction zs)
  case Nil
  then show ?case by simp
next
  case (Cons z zs)
  show ?case
  proof (cases "z \<in> set zs")
    case True
    then have "count_list zs z \<noteq> 0" by (simp add: count_list_0_iff)
    with True show ?thesis by auto
  next
    case False
    then show ?thesis using Cons by auto
  qed
qed

lemma entropyOf_sum:
  "entropyOf guess secrets =
     - (\<Sum>k \<in> computePattern guess ` set secrets.
          real (length (filter (\<lambda>y. computePattern guess y = k) secrets)) / real (length secrets)
          * log 2 (real (length (filter (\<lambda>y. computePattern guess y = k) secrets)) / real (length secrets)))"
proof -
  let ?g = "\<lambda>c::nat. real c / real (length secrets) * log 2 (real c / real (length secrets))"
  let ?P = "partitionByPattern guess secrets"
  have 1: "entropyOf guess secrets
          = foldl (\<lambda>e x. e - (case x of (k, b) \<Rightarrow> ?g (length b))) 0 ?P"
    unfolding entropyOf_def Let_def
    by (rule arg_cong[where f = "\<lambda>h. foldl h 0 ?P"]) auto
  have 2: "foldl (\<lambda>e x. e - (case x of (k, b) \<Rightarrow> ?g (length b))) 0 ?P
          = 0 - sum_list (map (\<lambda>(k, b). ?g (length b)) ?P)"
    by (rule foldl_minus)
  have 3: "sum_list (map (\<lambda>(k, b). ?g (length b)) ?P)
          = (\<Sum>k \<in> computePattern guess ` set secrets.
               ?g (length (filter (\<lambda>y. computePattern guess y = k) secrets)))"
    by (rule bucketsOf_sum[OF bucketsOf_partition])
  show ?thesis
    unfolding 1 2 3 by (simp only: diff_0)
qed

lemma entropy_abstract:
  fixes c :: "'k \<Rightarrow> real" and n :: real
  assumes fin: "finite K" and n: "0 < n" and total: "(\<Sum>k \<in> K. c k) = n"
    and one: "\<And>k. k \<in> K \<Longrightarrow> 1 \<le> c k"
  defines "H \<equiv> - (\<Sum>k \<in> K. c k / n * log 2 (c k / n))"
  shows "0 \<le> H \<and> H \<le> log 2 n \<and> (H = log 2 n \<longleftrightarrow> (\<forall>k \<in> K. c k = 1))"
proof -
  have cpos: "0 < c k" if "k \<in> K" for k
    using one[OF that] by linarith
  have cle: "c k \<le> n" if "k \<in> K" for k
  proof -
    have "c k \<le> (\<Sum>j \<in> K. c j)"
      by (rule member_le_sum[OF that _ fin]) (use cpos in \<open>auto intro: less_imp_le\<close>)
    then show ?thesis by (simp only: total)
  qed
  have term_le: "c k / n * log 2 (c k / n) \<le> 0" if "k \<in> K" for k
  proof -
    have p: "0 < c k / n" by (intro divide_pos_pos n cpos that)
    have "c k / n \<le> 1" using cle[OF that] n by (simp add: divide_le_eq)
    with p have "log 2 (c k / n) \<le> 0" by simp
    with p show ?thesis by (intro mult_nonneg_nonpos) simp_all
  qed
  have lower: "0 \<le> H"
    unfolding H_def using term_le by (simp add: sum_nonpos)
  let ?D = "\<Sum>k \<in> K. c k * log 2 (c k)"
  have term_eq: "c k / n * log 2 (c k / n) = (c k * log 2 (c k)) / n - c k * (log 2 n / n)"
    if "k \<in> K" for k
  proof -
    have "log 2 (c k / n) = log 2 (c k) - log 2 n"
      by (rule log_divide_pos[OF cpos[OF that] n])
    then show ?thesis by (simp add: right_diff_distrib)
  qed
  have "(\<Sum>k \<in> K. c k / n * log 2 (c k / n))
          = (\<Sum>k \<in> K. (c k * log 2 (c k)) / n - c k * (log 2 n / n))"
    by (intro sum.cong refl term_eq)
  also have "\<dots> = ?D / n - (\<Sum>k \<in> K. c k) * (log 2 n / n)"
    by (simp only: sum_subtractf sum_divide_distrib sum_distrib_right)
  also have "(\<Sum>k \<in> K. c k) * (log 2 n / n) = log 2 n"
    unfolding total using n by simp
  finally have Hn: "H = log 2 n - ?D / n"
    unfolding H_def by simp
  have D_term: "0 \<le> c k * log 2 (c k)" if "k \<in> K" for k
  proof -
    have "0 \<le> log 2 (c k)" using one[OF that] cpos[OF that] by simp
    then show ?thesis using cpos[OF that] by (intro mult_nonneg_nonneg) simp_all
  qed
  have D_nonneg: "0 \<le> ?D"
    by (intro sum_nonneg D_term)
  have upper: "H \<le> log 2 n"
    unfolding Hn using D_nonneg n by simp
  have "H = log 2 n \<longleftrightarrow> ?D = 0"
    unfolding Hn using n by simp
  also have "\<dots> \<longleftrightarrow> (\<forall>k \<in> K. c k * log 2 (c k) = 0)"
    using fin D_term by (rule sum_nonneg_eq_0_iff)
  also have "\<dots> \<longleftrightarrow> (\<forall>k \<in> K. c k = 1)"
  proof (intro ball_cong refl)
    fix k assume k: "k \<in> K"
    have "log 2 (c k) = 0 \<longleftrightarrow> c k = 1"
    proof (cases "c k = 1")
      case True
      then show ?thesis by simp
    next
      case False
      with one[OF k] have "1 < c k" by linarith
      then have "0 < log 2 (c k)" by simp
      with False show ?thesis by simp
    qed
    moreover have "c k \<noteq> 0" using cpos[OF k] by linarith
    ultimately show "c k * log 2 (c k) = 0 \<longleftrightarrow> c k = 1"
      by (simp only: mult_eq_0_iff) simp
  qed
  finally show ?thesis
    using lower upper by simp
qed

text \<open>
  The entropy over the real numbers. For every guess and every non-empty pool of \<open>n\<close>
  secrets, the exact entropy of the partition of the pool by feedback pattern lies between
  0 and \<open>log\<^sub>2 n\<close>, and it equals \<open>log\<^sub>2 n\<close> exactly when the secrets of the pool yield
  pairwise distinct patterns. The source computes this quantity in floating-point
  arithmetic, whose rounding is outside the model: the statement is about the exact value
  and says nothing on the last digit of the computed one.
\<close>

lemma entropy_bounds_real:
  assumes "pool \<noteq> []"
  shows "0 \<le> entropyOf guess pool \<and>
         entropyOf guess pool \<le> log 2 (real (length pool)) \<and>
         (entropyOf guess pool = log 2 (real (length pool))
            \<longleftrightarrow> distinct (map (computePattern guess) pool))"
proof -
  let ?f = "computePattern guess"
  let ?K = "?f ` set pool"
  let ?c = "\<lambda>k. length (filter (\<lambda>y. ?f y = k) pool)"
  let ?n = "real (length pool)"
  have n: "0 < ?n" using assms by simp
  have fin: "finite ?K" by simp
  have "(\<Sum>k \<in> ?K. ?c k) = length pool"
    by (rule class_sizes_sum) simp_all
  then have total: "(\<Sum>k \<in> ?K. real (?c k)) = ?n"
    by (metis of_nat_sum)
  have one: "1 \<le> real (?c k)" if "k \<in> ?K" for k
  proof -
    from that have "0 < ?c k" by (auto simp: filter_empty_conv)
    then have "1 \<le> ?c k" by arith
    then show ?thesis by (metis of_nat_1 of_nat_le_iff)
  qed
  have H: "entropyOf guess pool = - (\<Sum>k \<in> ?K. real (?c k) / ?n * log 2 (real (?c k) / ?n))"
    by (rule entropyOf_sum)
  have "(\<forall>k \<in> ?K. real (?c k) = 1) \<longleftrightarrow> (\<forall>k \<in> ?K. ?c k = 1)"
    by (simp only: of_nat_eq_1_iff)
  also have "\<dots> \<longleftrightarrow> distinct (map ?f pool)"
    by (simp add: distinct_count_one class_size_count)
  finally have dist: "(\<forall>k \<in> ?K. real (?c k) = 1) \<longleftrightarrow> distinct (map ?f pool)" .
  from entropy_abstract[OF fin n total one]
  have "0 \<le> entropyOf guess pool \<and>
        entropyOf guess pool \<le> log 2 ?n \<and>
        (entropyOf guess pool = log 2 ?n \<longleftrightarrow> (\<forall>k \<in> ?K. real (?c k) = 1))"
    by (simp only: H)
  then show ?thesis
    by (simp only: dist)
qed

lemma entropy_bounds_real_example:
  "entropyOf ''STARE'' [''STARE'', ''CRANE''] = 1 \<and>
   0 \<le> entropyOf ''STARE'' [''STARE'', ''STARE''] \<and>
   entropyOf ''STARE'' [''STARE'', ''STARE''] < 1"
proof -
  have d1: "distinct (map (computePattern ''STARE'') [''STARE'', ''CRANE''])"
    by code_simp
  have d2: "\<not> distinct (map (computePattern ''STARE'') [''STARE'', ''STARE''])"
    by simp
  have l: "log 2 (real (length [''STARE'', ''CRANE''])) = 1"
       "log 2 (real (length [''STARE'', ''STARE''])) = 1"
    by simp_all
  from entropy_bounds_real[of "[''STARE'', ''CRANE'']" "''STARE''"] d1 l
  have "entropyOf ''STARE'' [''STARE'', ''CRANE''] = 1" by simp
  moreover from entropy_bounds_real[of "[''STARE'', ''STARE'']" "''STARE''"] d2 l
  have "0 \<le> entropyOf ''STARE'' [''STARE'', ''STARE''] \<and>
        entropyOf ''STARE'' [''STARE'', ''STARE''] < 1" by simp
  ultimately show ?thesis by simp
qed


end
